theory Spec2Isabelle
  imports Complex_Main "HOL-Library.Char_ord" "HOL-Library.List_Lexorder"
    "HOL-Library.Product_Lexorder" "HOL-Library.Multiset"
begin

section \<open>Smart Office sensor simulator: the model\<close>

text \<open>
  The embedding follows \<^verbatim>\<open>simulador_smart_office.py\<close> function by function.
  Floating-point values are modelled as real numbers; the properties proved below rest on
  comparisons, \<open>max\<close>/\<open>min\<close> and rounding at the grid of decimals only.
\<close>

subsection \<open>Timestamps\<close>

text \<open>
  A naive \<open>pd.Timestamp\<close> is modelled by its integer value: the number of nanoseconds
  since 1970-01-01 00:00, a Thursday (\<open>weekday() = 3\<close>). No time zone is attached in the
  source, so the calendar fields are plain quotients and remainders.
\<close>

type_synonym timestamp = int

definition ns_per_minute :: int where
  "ns_per_minute = 60000000000"

definition ns_per_hour :: int where
  "ns_per_hour = 60 * ns_per_minute"

definition ns_per_day :: int where
  "ns_per_day = 24 * ns_per_hour"

definition hour :: "timestamp \<Rightarrow> int" where
  "hour ts = (ts div ns_per_hour) mod 24"

definition minute :: "timestamp \<Rightarrow> int" where
  "minute ts = (ts div ns_per_minute) mod 60"

definition weekday :: "timestamp \<Rightarrow> int" where
  "weekday ts = (ts div ns_per_day + 3) mod 7"

definition timedelta_days :: "int \<Rightarrow> int" where
  "timedelta_days days = days * ns_per_day"

definition freq_15T :: int where
  "freq_15T = 15 * ns_per_minute"

subsection \<open>The time grid\<close>

text \<open>
  \<open>pd.date_range(start, end, freq, inclusive="left")\<close>. pandas first generates the
  instants \<open>start, start + freq, ...\<close> up to and including \<open>end\<close>, then trims the bound the
  caller excluded. When \<open>start = end\<close> it trims only if both bounds are excluded, so with
  \<open>inclusive="left"\<close> the single instant stays.
\<close>

function generate_range :: "timestamp \<Rightarrow> timestamp \<Rightarrow> int \<Rightarrow> timestamp list" where
  "generate_range start end freq =
     (if 0 < freq \<and> start \<le> end then start # generate_range (start + freq) end freq else [])"
  by pat_completeness auto
termination
  by (relation "measure (\<lambda>(start, end, freq). nat (end - start + 1))") auto

declare generate_range.simps [simp del]

definition date_range_left :: "timestamp \<Rightarrow> timestamp \<Rightarrow> int \<Rightarrow> timestamp list" where
  "date_range_left start end freq =
     (let index = generate_range start end freq
      in if start = end then index
         else if index \<noteq> [] \<and> last index = end then butlast index
         else index)"

definition generate_time_index :: "timestamp \<Rightarrow> int \<Rightarrow> timestamp list" where
  "generate_time_index start days =
     (let end = start + timedelta_days days
      in date_range_left start end freq_15T)"

subsection \<open>Work-hour and night classifiers\<close>

definition is_work_hour :: "timestamp \<Rightarrow> bool" where
  "is_work_hour ts = (weekday ts < 5 \<and> (8 \<le> hour ts \<and> hour ts < 18))"

definition is_night :: "timestamp \<Rightarrow> bool" where
  "is_night ts = (hour ts \<ge> 22 \<or> hour ts < 6)"

subsection \<open>The random generator\<close>

text \<open>
  \<open>np.random.default_rng\<close> belongs to NumPy, not to the program, so the generator is a
  parameter: a state type \<open>'g\<close>, the seeding function, and the two draws the program uses,
  each returning the drawn value and the advanced state.
\<close>

record 'g generator =
  default_rng :: "int \<Rightarrow> 'g"
  rng_normal :: "'g \<Rightarrow> real \<Rightarrow> real \<Rightarrow> real \<times> 'g"
  rng_random :: "'g \<Rightarrow> real \<times> 'g"

text \<open>
  A concrete generator for evaluating the model: its state is the seed together with a
  script of outcomes still to be drawn. \<open>normal(loc, scale)\<close> reads the next entry as a
  standard-normal outcome \<open>z\<close> and returns \<open>loc + scale * z\<close>; \<open>random()\<close> returns the
  next entry as it is.
\<close>

definition scripted :: "real list \<Rightarrow> (int \<times> real list) generator" where
  "scripted script =
     \<lparr> default_rng = (\<lambda>seed. (seed, script)),
       rng_normal = (\<lambda>g loc scale.
          case snd g of [] \<Rightarrow> (loc, g) | z # zs \<Rightarrow> (loc + scale * z, (fst g, zs))),
       rng_random = (\<lambda>g.
          case snd g of [] \<Rightarrow> (1 / 2, g) | u # us \<Rightarrow> (u, (fst g, us))) \<rparr>"

text \<open>
  The same script behind another representation: the state is only the position reached in
  the script, and the seed is not kept.
\<close>

definition indexed :: "real list \<Rightarrow> nat generator" where
  "indexed script =
     \<lparr> default_rng = (\<lambda>seed. 0),
       rng_normal = (\<lambda>g loc scale.
          if g < length script then (loc + scale * script ! g, Suc g) else (loc, g)),
       rng_random = (\<lambda>g.
          if g < length script then (script ! g, Suc g) else (1 / 2, g)) \<rparr>"

text \<open>
  Two generator instances reproduce each other's draws when some correspondence \<open>R\<close> of
  their states holds after seeding with equal seeds and is kept by every draw, the drawn
  values being equal. This is what "a deterministic generator seeded with the same seed"
  gives two separate runs, each with a generator object of its own.
\<close>

definition same_draws :: "('a \<Rightarrow> 'b \<Rightarrow> bool) \<Rightarrow> 'a generator \<Rightarrow> 'b generator \<Rightarrow> bool" where
  "same_draws R G1 G2 =
     ((\<forall>seed. R (default_rng G1 seed) (default_rng G2 seed))
      \<and> (\<forall>a b loc scale. R a b \<longrightarrow>
             fst (rng_normal G1 a loc scale) = fst (rng_normal G2 b loc scale)
           \<and> R (snd (rng_normal G1 a loc scale)) (snd (rng_normal G2 b loc scale)))
      \<and> (\<forall>a b. R a b \<longrightarrow>
             fst (rng_random G1 a) = fst (rng_random G2 b)
           \<and> R (snd (rng_random G1 a)) (snd (rng_random G2 b))))"

text \<open>
  The generator state reached after the first \<open>i\<close> iterations of a loop over the grid
  whose body is \<open>step\<close>.
\<close>

definition state_after ::
    "(timestamp \<Rightarrow> 'g \<Rightarrow> 'a \<times> 'g) \<Rightarrow> timestamp list \<Rightarrow> 'g \<Rightarrow> nat \<Rightarrow> 'g" where
  "state_after step ti g i = fold (\<lambda>ts s. snd (step ts s)) (take i ti) g"

subsection \<open>Temperature\<close>

definition rad :: "timestamp \<Rightarrow> real" where
  "rad ts = (real_of_int (hour ts * 60 + minute ts) / (24 * 60)) * 2 * pi"

definition daily :: "timestamp \<Rightarrow> real" where
  "daily ts = 2.5 * sin (rad ts - pi / 2) + 22.5"

text \<open>One iteration of the temperature loop: the value appended and the generator after it.\<close>

definition temp_sample :: "'g generator \<Rightarrow> timestamp \<Rightarrow> 'g \<Rightarrow> real \<times> 'g" where
  "temp_sample G ts rng =
     (let d0 = daily ts;
          (d1, rng1) = (if is_work_hour ts
                        then (let (z, r) = rng_normal G rng 0 0.2 in (d0 + (0.6 + z), r))
                        else (d0, rng));
          (d2, rng2) = (if is_night ts
                        then (let (z, r) = rng_normal G rng1 0 0.2 in (d1 - (1.0 + z), r))
                        else (d1, rng1));
          (z, rng3) = rng_normal G rng2 0 0.3;
          val = d2 + z
      in (max 17.0 (min 28.0 val), rng3))"

fun temp_loop :: "'g generator \<Rightarrow> timestamp list \<Rightarrow> 'g \<Rightarrow> real list \<times> 'g" where
  "temp_loop G [] rng = ([], rng)"
| "temp_loop G (ts # rest) rng =
     (let (v, rng1) = temp_sample G ts rng;
          (vs, rng2) = temp_loop G rest rng1
      in (v # vs, rng2))"

subsection \<open>Illuminance\<close>

definition lux_sample :: "'g generator \<Rightarrow> timestamp \<Rightarrow> 'g \<Rightarrow> real \<times> 'g" where
  "lux_sample G ts rng =
     (let (base, rng1) =
            (if is_night ts then (0.0, rng)
             else if is_work_hour ts
             then (let (z, r) = rng_normal G rng 0 60 in (500 + z, r))
             else (let (z, r) = rng_normal G rng 0 30 in (max 0 (50 + z), r)))
      in (max 0.0 base, rng1))"

fun lux_loop :: "'g generator \<Rightarrow> timestamp list \<Rightarrow> 'g \<Rightarrow> real list \<times> 'g" where
  "lux_loop G [] rng = ([], rng)"
| "lux_loop G (ts # rest) rng =
     (let (v, rng1) = lux_sample G ts rng;
          (vs, rng2) = lux_loop G rest rng1
      in (v # vs, rng2))"

subsection \<open>Occupancy\<close>

text \<open>The probability assigned by the \<open>if\<close>/\<open>elif\<close> chain, before the weekend spike.\<close>

definition occ_base_p :: "timestamp \<Rightarrow> real" where
  "occ_base_p ts =
     (if weekday ts < 5
      then (if 8 \<le> hour ts \<and> hour ts < 18 then 0.85
            else if (7 \<le> hour ts \<and> hour ts < 8) \<or> (18 \<le> hour ts \<and> hour ts < 19) then 0.35
            else 0.05)
      else 0.03)"

definition occ_sample :: "'g generator \<Rightarrow> timestamp \<Rightarrow> 'g \<Rightarrow> int \<times> 'g" where
  "occ_sample G ts rng =
     (let p0 = occ_base_p ts;
          (p, rng1) = (if weekday ts \<ge> 5 \<and> (10 \<le> hour ts \<and> hour ts < 14)
                       then (let (u, r) = rng_random G rng
                             in (if u < 0.06 then 0.7 else p0, r))
                       else (p0, rng));
          (u, rng2) = rng_random G rng1
      in ((if u < p then 1 else 0), rng2))"

fun occ_loop :: "'g generator \<Rightarrow> timestamp list \<Rightarrow> 'g \<Rightarrow> int list \<times> 'g" where
  "occ_loop G [] rng = ([], rng)"
| "occ_loop G (ts # rest) rng =
     (let (v, rng1) = occ_sample G ts rng;
          (vs, rng2) = occ_loop G rest rng1
      in (v # vs, rng2))"

text \<open>
  The schedule as the specification words it, for comparison with \<open>occ_sample\<close>: the
  resolved probability of a timestamp, given whether the weekend spike draw succeeded.
\<close>

definition spec_occupancy_probability :: "timestamp \<Rightarrow> bool \<Rightarrow> real" where
  "spec_occupancy_probability ts spike =
     (if weekday ts \<in> {0, 1, 2, 3, 4}
      then (if hour ts \<in> {8..<18} then 0.85
            else if hour ts \<in> {7..<8} \<or> hour ts \<in> {18..<19} then 0.35
            else 0.05)
      else (if hour ts \<in> {10..<14} \<and> spike then 0.7 else 0.03))"

subsection \<open>Rounding and formatting\<close>

text \<open>\<open>np.round(x, decimals)\<close>: scale, round half to even, scale back.\<close>

definition rint :: "real \<Rightarrow> int" where
  "rint x =
     (let f = \<lfloor>x\<rfloor>; d = x - of_int f
      in if d < 1 / 2 then f else if 1 / 2 < d then f + 1 else if even f then f else f + 1)"

definition np_round :: "real \<Rightarrow> nat \<Rightarrow> real" where
  "np_round x decimals = of_int (rint (x * 10 ^ decimals)) / 10 ^ decimals"

text \<open>The decimal rendering of an integer inside an f-string.\<close>

fun str_nat :: "nat \<Rightarrow> string" where
  "str_nat n =
     (if n < 10 then [''0123456789'' ! n]
      else str_nat (n div 10) @ [''0123456789'' ! (n mod 10)])"

declare str_nat.simps [simp del]

definition str :: "int \<Rightarrow> string" where
  "str i = (if i < 0 then CHR ''-'' # str_nat (nat (- i)) else str_nat (nat i))"

subsection \<open>Rows and the per-room table\<close>

record row =
  timestamp :: timestamp
  sensor_id :: string
  valor :: real

definition data_frame :: "timestamp list \<Rightarrow> string \<Rightarrow> real list \<Rightarrow> row list" where
  "data_frame time_index sid vals =
     map2 (\<lambda>ts v. \<lparr> timestamp = ts, sensor_id = sid, valor = v \<rparr>) time_index vals"

definition simulate_for_room :: "'g generator \<Rightarrow> int \<Rightarrow> timestamp list \<Rightarrow> int \<Rightarrow> row list" where
  "simulate_for_room G room_id time_index seed_base =
     (let rng = default_rng G (seed_base + room_id);
          (temp, rng1) = temp_loop G time_index rng;
          (lux, rng2) = lux_loop G time_index rng1;
          (occ, rng3) = occ_loop G time_index rng2;
          df_temp = data_frame time_index (''temp_'' @ str room_id)
                      (map (\<lambda>v. np_round v 2) temp);
          df_lux = data_frame time_index (''lux_'' @ str room_id)
                      (map (\<lambda>v. np_round v 1) lux);
          df_occ = data_frame time_index (''occ_'' @ str room_id)
                      (map real_of_int occ)
      in df_temp @ df_lux @ df_occ)"

subsection \<open>The whole run\<close>

text \<open>
  \<open>sort_values(["timestamp", "sensor_id"])\<close>: ascending by the pair, timestamps as
  integers and sensor identifiers in the lexicographic order of their characters.
\<close>

definition sort_values :: "row list \<Rightarrow> row list" where
  "sort_values df = sort_key (\<lambda>r. (timestamp r, sensor_id r)) df"

text \<open>
  Lines 115 to 125 of \<open>main\<close>, with its two literals (7 days, base seed 2025) as
  parameters, so that runs with other day counts and seeds can be spoken about.
\<close>

definition build_table :: "'g generator \<Rightarrow> int \<Rightarrow> int \<Rightarrow> timestamp \<Rightarrow> row list" where
  "build_table G seed_base days start =
     (let time_index = generate_time_index start days;
          frames = map (\<lambda>room. simulate_for_room G room time_index seed_base) [1, 2, 3];
          df = concat frames
      in sort_values df)"

text \<open>The anchor chosen when no start is given: Monday 00:00 of the week of \<open>now\<close>.\<close>

definition monday_midnight :: "timestamp \<Rightarrow> timestamp" where
  "monday_midnight today =
     (let monday = today - timedelta_days (weekday today)
      in (monday div ns_per_day) * ns_per_day)"

text \<open>
  \<open>main\<close> returns the table it writes. The clock reading \<open>now\<close> and the output path are
  the run's environment.
\<close>

definition main :: "'g generator \<Rightarrow> timestamp \<Rightarrow> string \<Rightarrow> timestamp option \<Rightarrow> row list" where
  "main G now output_csv start =
     (let start1 = (case start of None \<Rightarrow> monday_midnight now | Some s \<Rightarrow> s)
      in build_table G 2025 7 start1)"

section \<open>Properties\<close>

subsection \<open>The time grid\<close>

text \<open>The generating loop in closed form, when the end lies a whole number of steps away.\<close>

lemma generate_range_past: "e < s \<Longrightarrow> generate_range s e f = []"
  by (subst generate_range.simps) simp

lemma generate_range_map:
  "0 < f \<Longrightarrow> generate_range s (s + int n * f) f = map (\<lambda>k. s + int k * f) [0..<Suc n]"
proof (induction n arbitrary: s)
  case 0
  have "generate_range s s f = s # generate_range (s + f) s f"
    using 0 by (subst generate_range.simps) simp
  also have "generate_range (s + f) s f = []"
    using 0 by (intro generate_range_past) simp
  finally show ?case by simp
next
  case (Suc n)
  have le: "s \<le> s + int (Suc n) * f" using Suc.prems by simp
  have e: "s + int (Suc n) * f = (s + f) + int n * f" by (simp add: algebra_simps)
  have "generate_range s (s + int (Suc n) * f) f
          = s # generate_range (s + f) ((s + f) + int n * f) f"
    using Suc.prems le by (subst generate_range.simps) (simp only: e if_True simp_thms)
  also have "\<dots> = s # map (\<lambda>k. (s + f) + int k * f) [0..<Suc n]"
    using Suc.IH [OF Suc.prems, of "s + f"] by simp
  also have "\<dots> = map (\<lambda>k. s + int k * f) [0..<Suc (Suc n)]"
    by (simp add: upt_conv_Cons map_Suc_upt [symmetric] algebra_simps del: upt_Suc)
  finally show ?case .
qed

lemma date_range_left_same: "0 < f \<Longrightarrow> date_range_left s s f = [s]"
  using generate_range_map [of f s 0] by (simp add: date_range_left_def)

lemma date_range_left_map:
  assumes "0 < f" "0 < n"
  shows "date_range_left s (s + int n * f) f = map (\<lambda>k. s + int k * f) [0..<n]"
proof -
  let ?h = "\<lambda>k. s + int k * f"
  have ne: "s \<noteq> s + int n * f" using assms by simp
  have g: "generate_range s (s + int n * f) f = map ?h [0..<n] @ [?h n]"
    using generate_range_map [OF assms(1), of s n] by simp
  show ?thesis
    using assms by (simp add: date_range_left_def Let_def g)
qed

lemma generate_time_index_map:
  assumes "0 < D"
  shows "generate_time_index start D = map (\<lambda>k. start + int k * freq_15T) [0..<nat (D * 96)]"
proof -
  have "start + timedelta_days D = start + int (nat (D * 96)) * freq_15T"
    using assms by (simp add: timedelta_days_def freq_15T_def ns_per_day_def ns_per_hour_def)
  moreover have "0 < freq_15T" by (simp add: freq_15T_def ns_per_minute_def)
  moreover have "0 < nat (D * 96)" using assms by simp
  ultimately show ?thesis
    by (simp only: generate_time_index_def Let_def date_range_left_map)
qed

lemma generate_time_index_zero: "generate_time_index start 0 = [start]"
proof -
  have "0 < freq_15T" by (simp add: freq_15T_def ns_per_minute_def)
  then show ?thesis
    by (simp add: generate_time_index_def timedelta_days_def date_range_left_same)
qed

text \<open>
  C4: for every start instant and every day count \<open>D > 0\<close>, the time grid has exactly
  \<open>D * 96\<close> entries, is strictly increasing, consecutive entries differ by exactly
  15 minutes, the first entry is the start instant, and the end instant \<open>start + D days\<close> is
  not in the grid. For \<open>D = 0\<close> the grid is not empty: it is the single instant \<open>start\<close>,
  which is the end instant \<open>start + 0 days\<close> itself.
\<close>

theorem time_grid:
  "(0 < D \<longrightarrow>
       length (generate_time_index start D) = nat (D * 96)
     \<and> sorted_wrt (<) (generate_time_index start D)
     \<and> (\<forall>i. Suc i < length (generate_time_index start D) \<longrightarrow>
            generate_time_index start D ! Suc i - generate_time_index start D ! i
              = 15 * ns_per_minute)
     \<and> generate_time_index start D ! 0 = start
     \<and> start + timedelta_days D \<notin> set (generate_time_index start D))
   \<and> generate_time_index start 0 = [start]
   \<and> length (generate_time_index start 0) = 1
   \<and> start + timedelta_days 0 \<in> set (generate_time_index start 0)"
proof -
  let ?g = "generate_time_index start D"
  have pos: "0 < freq_15T" by (simp add: freq_15T_def ns_per_minute_def)
  have positive: "length ?g = nat (D * 96) \<and> sorted_wrt (<) ?g
     \<and> (\<forall>i. Suc i < length ?g \<longrightarrow> ?g ! Suc i - ?g ! i = 15 * ns_per_minute)
     \<and> ?g ! 0 = start \<and> start + timedelta_days D \<notin> set ?g" if D: "0 < D"
  proof -
    have g: "?g = map (\<lambda>k. start + int k * freq_15T) [0..<nat (D * 96)]"
      using D by (rule generate_time_index_map)
    have len: "length ?g = nat (D * 96)" by (simp add: g)
    have nth: "?g ! i = start + int i * freq_15T" if "i < nat (D * 96)" for i
      using that by (simp add: g)
    have srt: "sorted_wrt (<) ?g"
      unfolding g using pos by (simp add: sorted_wrt_map sorted_wrt_iff_nth_less)
    have step: "\<forall>i. Suc i < length ?g \<longrightarrow> ?g ! Suc i - ?g ! i = 15 * ns_per_minute"
    proof (intro allI impI)
      fix i assume "Suc i < length ?g"
      then have "Suc i < nat (D * 96)" "i < nat (D * 96)" using len by simp_all
      then show "?g ! Suc i - ?g ! i = 15 * ns_per_minute"
        by (simp add: nth freq_15T_def algebra_simps)
    qed
    have "0 < nat (D * 96)" using D by simp
    then have first: "?g ! 0 = start" by (simp add: nth)
    have noend: "start + timedelta_days D \<notin> set ?g"
    proof
      assume "start + timedelta_days D \<in> set ?g"
      then obtain k where k: "k < nat (D * 96)"
          and eq: "start + timedelta_days D = start + int k * freq_15T"
        unfolding g by auto
      define n where "n = nat (D * 96)"
      have td: "timedelta_days D = int n * freq_15T"
        using D
        by (simp add: n_def timedelta_days_def freq_15T_def ns_per_day_def ns_per_hour_def)
      have nz: "freq_15T \<noteq> 0" using pos by simp
      from eq td have "int k * freq_15T = int n * freq_15T" by linarith
      then have "int k = int n" using mult_right_cancel [OF nz] by blast
      then have "k = n" by (simp only: of_nat_eq_iff)
      with k show False by (simp add: n_def)
    qed
    from len srt step first noend show ?thesis by blast
  qed
  have zero: "generate_time_index start 0 = [start]" by (rule generate_time_index_zero)
  have one: "length (generate_time_index start 0) = 1" by (simp add: zero)
  have ende: "start + timedelta_days 0 \<in> set (generate_time_index start 0)"
    by (simp add: zero timedelta_days_def)
  from positive zero one ende show ?thesis by blast
qed

text \<open>The grid of one day starting at the epoch: 96 entries, the first two 15 minutes apart.\<close>

theorem time_grid_witness:
  "(0::int) < 1 \<and> length (generate_time_index 0 1) = 96
     \<and> generate_time_index 0 1 ! Suc 0 - generate_time_index 0 1 ! 0 = 15 * ns_per_minute
     \<and> generate_time_index 0 1 ! 0 = 0
     \<and> generate_time_index 0 0 = [0]"
proof -
  have h: "(0::int) < 1" by simp
  note t = conjunct1 [OF time_grid [of 1 0], rule_format, OF h]
  from t have l: "length (generate_time_index 0 1) = 96" by simp
  from t have a: "\<forall>i. Suc i < length (generate_time_index 0 1) \<longrightarrow>
        generate_time_index 0 1 ! Suc i - generate_time_index 0 1 ! i = 15 * ns_per_minute"
    by (rule conjunct1 [OF conjunct2 [OF conjunct2]])
  have s: "Suc 0 < length (generate_time_index 0 1)" by (simp add: l)
  have d: "generate_time_index 0 1 ! Suc 0 - generate_time_index 0 1 ! 0 = 15 * ns_per_minute"
    using a s by blast
  from t have f: "generate_time_index 0 1 ! 0 = 0" by simp
  have z: "generate_time_index 0 0 = [0]"
    by (rule conjunct1 [OF conjunct2 [OF time_grid [of 1 0]]])
  from h l d f z show ?thesis by blast
qed

subsection \<open>The sensor models\<close>

text \<open>
  Each loop, one iteration unfolded, with the pair taken apart by \<open>fst\<close> and \<open>snd\<close>.
\<close>

lemma temp_loop_Cons:
  "temp_loop G (ts # rest) g =
     (fst (temp_sample G ts g) # fst (temp_loop G rest (snd (temp_sample G ts g))),
      snd (temp_loop G rest (snd (temp_sample G ts g))))"
  by (simp split: prod.splits)

lemma lux_loop_Cons:
  "lux_loop G (ts # rest) g =
     (fst (lux_sample G ts g) # fst (lux_loop G rest (snd (lux_sample G ts g))),
      snd (lux_loop G rest (snd (lux_sample G ts g))))"
  by (simp split: prod.splits)

lemma occ_loop_Cons:
  "occ_loop G (ts # rest) g =
     (fst (occ_sample G ts g) # fst (occ_loop G rest (snd (occ_sample G ts g))),
      snd (occ_loop G rest (snd (occ_sample G ts g))))"
  by (simp split: prod.splits)

lemma temp_loop_length: "length (fst (temp_loop G ti g)) = length ti"
  by (induction ti arbitrary: g) (simp_all only: temp_loop.simps(1) temp_loop_Cons fst_conv list.size)

lemma lux_loop_length: "length (fst (lux_loop G ti g)) = length ti"
  by (induction ti arbitrary: g) (simp_all only: lux_loop.simps(1) lux_loop_Cons fst_conv list.size)

lemma occ_loop_length: "length (fst (occ_loop G ti g)) = length ti"
  by (induction ti arbitrary: g) (simp_all only: occ_loop.simps(1) occ_loop_Cons fst_conv list.size)

lemma temp_sample_range: "17 \<le> fst (temp_sample G ts g) \<and> fst (temp_sample G ts g) \<le> 28"
  by (simp add: temp_sample_def Let_def split: prod.splits)

lemma temp_loop_range:
  "v \<in> set (fst (temp_loop G ti g)) \<Longrightarrow> 17 \<le> v \<and> v \<le> 28"
proof (induction ti arbitrary: g)
  case Nil
  then show ?case by simp
next
  case (Cons ts rest)
  from Cons.prems have "v = fst (temp_sample G ts g)
      \<or> v \<in> set (fst (temp_loop G rest (snd (temp_sample G ts g))))"
    by (simp only: temp_loop_Cons fst_conv set_simps insert_iff)
  then show ?case
  proof
    assume "v = fst (temp_sample G ts g)"
    with temp_sample_range [of G ts g] show ?thesis by simp
  next
    assume "v \<in> set (fst (temp_loop G rest (snd (temp_sample G ts g))))"
    then show ?thesis by (rule Cons.IH)
  qed
qed

text \<open>
  Rounding half to even stays between the integers that enclose its argument.
\<close>

lemma rint_lower: "of_int a \<le> x \<Longrightarrow> a \<le> rint x"
proof -
  assume "of_int a \<le> x"
  then have "a \<le> \<lfloor>x\<rfloor>" by (simp add: le_floor_iff)
  moreover have "\<lfloor>x\<rfloor> \<le> rint x" by (simp add: rint_def Let_def)
  ultimately show ?thesis by simp
qed

lemma rint_upper: "x \<le> of_int b \<Longrightarrow> rint x \<le> b"
proof -
  assume h: "x \<le> of_int b"
  show ?thesis
  proof (cases "x = of_int \<lfloor>x\<rfloor>")
    case True
    then have "rint x = \<lfloor>x\<rfloor>" by (simp add: rint_def Let_def)
    moreover have "\<lfloor>x\<rfloor> \<le> b" using h by (simp add: floor_le_iff)
    ultimately show ?thesis by simp
  next
    case False
    then have "of_int \<lfloor>x\<rfloor> < x" using of_int_floor_le [of x] by linarith
    with h have "of_int \<lfloor>x\<rfloor> < (of_int b :: real)" by linarith
    then have "\<lfloor>x\<rfloor> < b" by (simp only: of_int_less_iff)
    moreover have "rint x \<le> \<lfloor>x\<rfloor> + 1" by (simp add: rint_def Let_def)
    ultimately show ?thesis by linarith
  qed
qed

lemma np_round_2_range: "17 \<le> x \<Longrightarrow> x \<le> 28 \<Longrightarrow> 17 \<le> np_round x 2 \<and> np_round x 2 \<le> 28"
proof -
  assume a: "17 \<le> x" and b: "x \<le> 28"
  have "of_int 1700 \<le> x * 10 ^ 2" using a by simp
  then have l: "1700 \<le> rint (x * 10 ^ 2)" by (rule rint_lower)
  have "x * 10 ^ 2 \<le> of_int 2800" using b by simp
  then have u: "rint (x * 10 ^ 2) \<le> 2800" by (rule rint_upper)
  from l have "(1700::real) \<le> of_int (rint (x * 10 ^ 2))" by linarith
  moreover from u have "of_int (rint (x * 10 ^ 2)) \<le> (2800::real)" by linarith
  ultimately show ?thesis by (simp add: np_round_def)
qed

lemma np_round_nonneg: "0 \<le> x \<Longrightarrow> 0 \<le> np_round x d"
proof -
  assume "0 \<le> x"
  then have "of_int 0 \<le> x * 10 ^ d" by simp
  then have "0 \<le> rint (x * 10 ^ d)" by (rule rint_lower)
  then show ?thesis by (simp add: np_round_def)
qed

lemma np_round_zero: "np_round 0 d = 0"
  by (simp add: np_round_def rint_def)

lemma data_frame_row:
  "r \<in> set (data_frame ti sid vals) \<Longrightarrow>
     sensor_id r = sid \<and> (timestamp r, valor r) \<in> set (zip ti vals)"
  by (auto simp: data_frame_def)

lemma data_frame_length: "length (data_frame ti sid vals) = min (length ti) (length vals)"
  by (simp add: data_frame_def)

lemma simulate_for_room_rows:
  assumes "r \<in> set (simulate_for_room G room_id ti seed_base)"
  obtains (temp) g where "sensor_id r = ''temp_'' @ str room_id"
      "(timestamp r, valor r) \<in> set (zip ti (map (\<lambda>v. np_round v 2) (fst (temp_loop G ti g))))"
  | (lux) g where "sensor_id r = ''lux_'' @ str room_id"
      "(timestamp r, valor r) \<in> set (zip ti (map (\<lambda>v. np_round v 1) (fst (lux_loop G ti g))))"
  | (occ) g where "sensor_id r = ''occ_'' @ str room_id"
      "(timestamp r, valor r) \<in> set (zip ti (map real_of_int (fst (occ_loop G ti g))))"
  using assms
  by (auto simp: simulate_for_room_def Let_def split: prod.splits dest!: data_frame_row)
     (metis fst_conv)+

lemma simulate_for_room_length:
  "length (simulate_for_room G room_id ti seed_base) = 3 * length ti"
proof -
  obtain t g1 where a: "temp_loop G ti (default_rng G (seed_base + room_id)) = (t, g1)"
    by (cases "temp_loop G ti (default_rng G (seed_base + room_id))")
  obtain l g2 where b: "lux_loop G ti g1 = (l, g2)" by (cases "lux_loop G ti g1")
  obtain c g3 where c: "occ_loop G ti g2 = (c, g3)" by (cases "occ_loop G ti g2")
  have "length t = length ti" using temp_loop_length [of G ti "default_rng G (seed_base + room_id)"] a by simp
  moreover have "length l = length ti" using lux_loop_length [of G ti g1] b by simp
  moreover have "length c = length ti" using occ_loop_length [of G ti g2] c by simp
  ultimately show ?thesis
    by (simp add: simulate_for_room_def Let_def a b c data_frame_length)
qed

text \<open>
  C3: for every room, every time grid and every outcome of the draws, a temperature row of
  the room's table carries a value between 17.0 and 28.0, after clamping and rounding to
  2 decimals.
\<close>

theorem temperature_range:
  assumes "r \<in> set (simulate_for_room G room_id time_index seed_base)"
    and "sensor_id r = ''temp_'' @ str room_id"
  shows "17 \<le> valor r \<and> valor r \<le> 28"
  using assms(1)
proof (cases rule: simulate_for_room_rows)
  case (temp g)
  from temp(2) obtain v where "v \<in> set (fst (temp_loop G time_index g))" "valor r = np_round v 2"
    by (auto dest!: set_zip_rightD)
  with temp_loop_range [of v G time_index g] show ?thesis
    by (simp add: np_round_2_range)
next
  case (lux g)
  with assms(2) show ?thesis by simp
next
  case (occ g)
  with assms(2) show ?thesis by simp
qed

lemmas model_defs = simulate_for_room_def scripted_def temp_sample_def lux_sample_def
  occ_sample_def is_night_def is_work_hour_def hour_def minute_def weekday_def
  ns_per_hour_def ns_per_minute_def ns_per_day_def daily_def rad_def occ_base_p_def
  data_frame_def np_round_def rint_def str_def str_nat.simps Let_def

text \<open>
  A night sample whose noise draw lies 40 standard deviations up: the value is clamped
  to 28.
\<close>

theorem temperature_range_witness:
  "\<lparr>timestamp = 0, sensor_id = ''temp_1'', valor = 28\<rparr>
      \<in> set (simulate_for_room (scripted [0, 40]) 1 [0] 42)
   \<and> sensor_id \<lparr>timestamp = 0, sensor_id = ''temp_1'', valor = 28\<rparr> = ''temp_'' @ str 1
   \<and> 17 \<le> valor \<lparr>timestamp = 0, sensor_id = ''temp_1'', valor = 28\<rparr>
   \<and> valor \<lparr>timestamp = 0, sensor_id = ''temp_1'', valor = 28\<rparr> \<le> 28"
proof -
  let ?r = "\<lparr>timestamp = 0, sensor_id = ''temp_1'', valor = 28\<rparr>"
  have m: "?r \<in> set (simulate_for_room (scripted [0, 40]) 1 [0] 42)"
    by (simp add: model_defs)
  have s: "sensor_id ?r = ''temp_'' @ str 1"
    by (simp add: str_def str_nat.simps)
  from temperature_range [OF m s] m s show ?thesis by blast
qed

lemma lux_sample_nonneg: "0 \<le> fst (lux_sample G ts g)"
  by (simp add: lux_sample_def Let_def split: prod.splits)

lemma lux_sample_night: "is_night ts \<Longrightarrow> fst (lux_sample G ts g) = 0"
  by (simp add: lux_sample_def)

lemma lux_loop_zip:
  "(ts, v) \<in> set (zip ti (fst (lux_loop G ti g))) \<Longrightarrow> 0 \<le> v \<and> (is_night ts \<longrightarrow> v = 0)"
proof (induction ti arbitrary: g)
  case Nil
  then show ?case by simp
next
  case (Cons t rest)
  from Cons.prems have "(ts, v) = (t, fst (lux_sample G t g))
      \<or> (ts, v) \<in> set (zip rest (fst (lux_loop G rest (snd (lux_sample G t g)))))"
    by (simp only: lux_loop_Cons fst_conv zip_Cons_Cons set_simps insert_iff)
  then show ?case
  proof
    assume "(ts, v) = (t, fst (lux_sample G t g))"
    then show ?thesis using lux_sample_nonneg [of G t g] lux_sample_night [of t G g] by simp
  next
    assume "(ts, v) \<in> set (zip rest (fst (lux_loop G rest (snd (lux_sample G t g)))))"
    then show ?thesis by (rule Cons.IH)
  qed
qed

text \<open>
  C1, as the code has it: every illuminance row carries a value \<open>\<ge> 0\<close>, and the value is 0
  whenever the timestamp is night. The converse is not promised: by day the noisy base is
  floored at 0, so a low draw gives 0 lux as well.
\<close>

theorem illuminance_nonneg_night_zero:
  assumes "r \<in> set (simulate_for_room G room_id time_index seed_base)"
    and "sensor_id r = ''lux_'' @ str room_id"
  shows "0 \<le> valor r \<and> (is_night (timestamp r) \<longrightarrow> valor r = 0)"
  using assms(1)
proof (cases rule: simulate_for_room_rows)
  case (temp g)
  with assms(2) show ?thesis by simp
next
  case (lux g)
  from lux(2) obtain v where v: "(timestamp r, v) \<in> set (zip time_index (fst (lux_loop G time_index g)))"
      and w: "valor r = np_round v 1"
    by (auto simp: zip_map2)
  from lux_loop_zip [OF v] w show ?thesis
    by (auto simp: np_round_nonneg np_round_zero)
next
  case (occ g)
  with assms(2) show ?thesis by simp
qed

text \<open>
  Thursday 1970-01-01 00:00 is night: the illuminance row of room 1 carries 0.
\<close>

theorem illuminance_nonneg_night_zero_witness:
  "\<lparr>timestamp = 0, sensor_id = ''lux_1'', valor = 0\<rparr>
      \<in> set (simulate_for_room (scripted []) 1 [0] 42)
   \<and> sensor_id \<lparr>timestamp = 0, sensor_id = ''lux_1'', valor = 0\<rparr> = ''lux_'' @ str 1
   \<and> is_night (timestamp \<lparr>timestamp = 0, sensor_id = ''lux_1'', valor = 0\<rparr>)
   \<and> 0 \<le> valor \<lparr>timestamp = 0, sensor_id = ''lux_1'', valor = 0\<rparr>
   \<and> valor \<lparr>timestamp = 0, sensor_id = ''lux_1'', valor = 0\<rparr> = 0"
proof -
  let ?r = "\<lparr>timestamp = 0, sensor_id = ''lux_1'', valor = 0\<rparr>"
  have m: "?r \<in> set (simulate_for_room (scripted []) 1 [0] 42)"
    by (simp add: model_defs)
  have s: "sensor_id ?r = ''lux_'' @ str 1"
    by (simp add: str_def str_nat.simps)
  have n: "is_night (timestamp ?r)"
    by (simp add: is_night_def hour_def ns_per_hour_def ns_per_minute_def)
  from illuminance_nonneg_night_zero [OF m s] m s n show ?thesis by blast
qed

text \<open>
  C1 as stated fails: at 06:00 on a Thursday (not night, not a work hour) a draw two standard
  deviations below the mean gives \<open>50 + 30 * (-2) = -10\<close>, floored to 0 lux.
\<close>

theorem illuminance_zero_by_day_counterexample:
  "\<lparr>timestamp = 21600000000000, sensor_id = ''lux_1'', valor = 0\<rparr>
      \<in> set (simulate_for_room (scripted [0, - 2]) 1 [21600000000000] 42)
   \<and> hour 21600000000000 = 6
   \<and> \<not> is_night 21600000000000"
  by (simp add: model_defs)

lemma weekday_range: "0 \<le> weekday ts \<and> weekday ts < 7"
  by (simp add: weekday_def)

text \<open>
  C10: no timestamp is both a work hour and night, so a temperature sample gets the
  work-hour uplift, or the night setback, or neither, never both.
\<close>

theorem work_hour_night_disjoint:
  "\<not> (is_work_hour ts \<and> is_night ts)
   \<and> temp_sample G ts g =
      (if is_work_hour ts
       then (let (j, g1) = rng_normal G g 0 0.2; (z, g2) = rng_normal G g1 0 0.3
             in (max 17.0 (min 28.0 (daily ts + (0.6 + j) + z)), g2))
       else if is_night ts
       then (let (j, g1) = rng_normal G g 0 0.2; (z, g2) = rng_normal G g1 0 0.3
             in (max 17.0 (min 28.0 (daily ts - (1.0 + j) + z)), g2))
       else (let (z, g1) = rng_normal G g 0 0.3
             in (max 17.0 (min 28.0 (daily ts + z)), g1)))"
proof -
  have d: "\<not> (is_work_hour ts \<and> is_night ts)"
    by (auto simp: is_work_hour_def is_night_def)
  then show ?thesis
    by (auto simp: temp_sample_def Let_def split: prod.splits)
qed

subsection \<open>The temperature baseline\<close>

text \<open>
  The sine argument covers one turn per day, and the baseline is a cosine of it.
\<close>

lemma minute_of_day_range: "0 \<le> hour ts * 60 + minute ts \<and> hour ts * 60 + minute ts < 1440"
proof -
  have "0 \<le> hour ts" "hour ts < 24" "0 \<le> minute ts" "minute ts < 60"
    by (simp_all add: hour_def minute_def)
  then show ?thesis by linarith
qed

lemma rad_scaled: "rad ts = real_of_int (hour ts * 60 + minute ts) * (pi / 720)"
  by (simp add: rad_def)

lemma rad_range: "0 \<le> rad ts \<and> rad ts < 2 * pi"
proof -
  let ?m = "real_of_int (hour ts * 60 + minute ts)"
  have m: "0 \<le> ?m" "?m < 1440"
    using minute_of_day_range [of ts] by simp_all
  have p: "0 < pi / 720" by simp
  have "0 \<le> ?m * (pi / 720)" using m(1) p by (intro mult_nonneg_nonneg) simp_all
  moreover have "?m * (pi / 720) < 1440 * (pi / 720)"
    using m(2) p by (rule mult_strict_right_mono)
  ultimately show ?thesis by (simp only: rad_scaled) simp
qed

lemma daily_cos: "daily ts = 22.5 - 2.5 * cos (rad ts)"
proof -
  have "sin (rad ts - pi / 2) = - cos (rad ts)"
    by (simp add: sin_diff)
  then show ?thesis by (simp add: daily_def)
qed

lemma cos_minus_one_iff:
  assumes "0 \<le> x" "x < 2 * pi"
  shows "cos x = - 1 \<longleftrightarrow> x = pi"
proof
  assume c: "cos x = - 1"
  show "x = pi"
  proof (cases "x \<le> pi")
    case True
    have "cos x \<le> cos pi" using c by simp
    then have "pi \<le> x" using cos_mono_le_eq [of x pi] assms True by simp
    with True show ?thesis by simp
  next
    case False
    then have "0 \<le> 2 * pi - x" "2 * pi - x \<le> pi" "2 * pi - x < pi" using assms by simp_all
    moreover have "cos (2 * pi - x) = cos x" by (simp add: cos_diff)
    ultimately have "cos (2 * pi - x) \<le> cos pi" using c by simp
    then have "pi \<le> 2 * pi - x"
      using cos_mono_le_eq [of "2 * pi - x" pi] \<open>0 \<le> 2 * pi - x\<close> \<open>2 * pi - x \<le> pi\<close> by simp
    with \<open>2 * pi - x < pi\<close> show ?thesis by simp
  qed
next
  assume "x = pi"
  then show "cos x = - 1" by simp
qed

lemma rad_pi_iff: "rad ts = pi \<longleftrightarrow> hour ts = 12 \<and> minute ts = 0"
proof -
  have h: "0 \<le> hour ts" "hour ts < 24" "0 \<le> minute ts" "minute ts < 60"
    by (simp_all add: hour_def minute_def)
  have p: "pi / 720 \<noteq> 0" by simp
  have "pi = 720 * (pi / 720)" by simp
  then have "rad ts = pi \<longleftrightarrow>
      real_of_int (hour ts * 60 + minute ts) * (pi / 720) = 720 * (pi / 720)"
    by (simp only: rad_scaled)
  also have "\<dots> \<longleftrightarrow> real_of_int (hour ts * 60 + minute ts) = 720"
    using mult_right_cancel [OF p] by blast
  also have "\<dots> \<longleftrightarrow> hour ts * 60 + minute ts = 720"
    by (metis of_int_eq_iff of_int_numeral)
  also have "\<dots> \<longleftrightarrow> hour ts = 12 \<and> minute ts = 0"
    using h by presburger
  finally show ?thesis .
qed

text \<open>
  C2: the baseline \<open>2.5 * sin (rad - pi/2) + 22.5\<close> is a daily sinusoid centred at 22.5 with
  amplitude 2.5, so it stays within [20, 25]. With the offset \<open>- pi/2\<close> it reaches its maximum
  25 exactly at 12:00; at 15:00 it has fallen to \<open>22.5 + 2.5 * sqrt 2 / 2\<close>, below 24.3.
\<close>

theorem daily_peak_at_noon:
  "(\<forall>ts. 20 \<le> daily ts \<and> daily ts \<le> 25)
   \<and> (\<forall>ts. daily ts = 25 \<longleftrightarrow> hour ts = 12 \<and> minute ts = 0)
   \<and> hour 54000000000000 = 15 \<and> minute 54000000000000 = 0
   \<and> daily 54000000000000 = 22.5 + 2.5 * (sqrt 2 / 2)
   \<and> daily 54000000000000 < 24.3"
proof -
  have rng: "20 \<le> daily ts \<and> daily ts \<le> 25" for ts
    using cos_le_one [of "rad ts"] cos_ge_minus_one [of "rad ts"] unfolding daily_cos
    by linarith
  have peak: "daily ts = 25 \<longleftrightarrow> hour ts = 12 \<and> minute ts = 0" for ts
  proof -
    have "daily ts = 25 \<longleftrightarrow> cos (rad ts) = - 1" by (simp add: daily_cos) argo
    also have "\<dots> \<longleftrightarrow> rad ts = pi" using rad_range [of ts] by (simp add: cos_minus_one_iff)
    also have "\<dots> \<longleftrightarrow> hour ts = 12 \<and> minute ts = 0" by (rule rad_pi_iff)
    finally show ?thesis .
  qed
  have hm: "hour 54000000000000 = 15" "minute 54000000000000 = 0"
    by (simp_all add: hour_def minute_def ns_per_hour_def ns_per_minute_def)
  have r: "rad 54000000000000 = pi + pi / 4"
    by (simp add: rad_def hm)
  have "cos (pi + pi / 4) = - cos (pi / 4)"
    by (simp only: cos_add cos_pi sin_pi mult_zero_left)
  then have "cos (rad 54000000000000) = - (sqrt 2 / 2)"
    by (simp only: r cos_45)
  then have v: "daily 54000000000000 = 22.5 + 2.5 * (sqrt 2 / 2)"
    by (simp add: daily_cos)
  have "sqrt 2 < 1.44"
    by (rule real_less_lsqrt) (simp_all add: power2_eq_square)
  with v have lt: "daily 54000000000000 < 24.3" by simp
  from rng peak hm v lt show ?thesis by blast
qed

subsection \<open>The assembled table\<close>

text \<open>
  The three room numbers as they appear in the sensor identifiers.
\<close>

lemma str_rooms: "str 1 = ''1''" "str 2 = ''2''" "str 3 = ''3''"
  by (simp_all add: str_def str_nat.simps)

lemma data_frame_filter:
  "filter (\<lambda>r. sensor_id r = sid) (data_frame ti sid' vals) =
     (if sid = sid' then data_frame ti sid' vals else [])"
  by (auto simp: data_frame_def filter_empty_conv intro!: filter_True)

lemma simulate_for_room_count:
  "length (filter (\<lambda>r. sensor_id r = sid) (simulate_for_room G room_id ti seed_base)) =
     (if sid = ''temp_'' @ str room_id \<or> sid = ''lux_'' @ str room_id
         \<or> sid = ''occ_'' @ str room_id then length ti else 0)"
proof -
  obtain t g1 where a: "temp_loop G ti (default_rng G (seed_base + room_id)) = (t, g1)"
    by (cases "temp_loop G ti (default_rng G (seed_base + room_id))")
  obtain l g2 where b: "lux_loop G ti g1 = (l, g2)" by (cases "lux_loop G ti g1")
  obtain c g3 where c: "occ_loop G ti g2 = (c, g3)" by (cases "occ_loop G ti g2")
  have "length t = length ti"
    using temp_loop_length [of G ti "default_rng G (seed_base + room_id)"] a by simp
  moreover have "length l = length ti" using lux_loop_length [of G ti g1] b by simp
  moreover have "length c = length ti" using occ_loop_length [of G ti g2] c by simp
  ultimately show ?thesis
    by (simp add: simulate_for_room_def Let_def a b c data_frame_filter data_frame_length)
qed

lemma main_unfold:
  "main G now output_csv start =
     sort_values
       (simulate_for_room G 1
          (generate_time_index (case start of None \<Rightarrow> monday_midnight now | Some s \<Rightarrow> s) 7) 2025
        @ simulate_for_room G 2
          (generate_time_index (case start of None \<Rightarrow> monday_midnight now | Some s \<Rightarrow> s) 7) 2025
        @ simulate_for_room G 3
          (generate_time_index (case start of None \<Rightarrow> monday_midnight now | Some s \<Rightarrow> s) 7) 2025)"
  by (simp add: main_def build_table_def Let_def)

lemma grid_7_length: "length (generate_time_index s 7) = 672"
  using generate_time_index_map [of 7 s] by simp

lemma main_length: "length (main G now output_csv start) = 6048"
  by (simp add: main_unfold sort_values_def simulate_for_room_length grid_7_length)

lemma main_count:
  "length (filter (\<lambda>r. sensor_id r = sid) (main G now output_csv start)) =
     (if sid \<in> {''temp_1'', ''temp_2'', ''temp_3'', ''lux_1'', ''lux_2'', ''lux_3'',
                 ''occ_1'', ''occ_2'', ''occ_3''} then 672 else 0)"
  by (simp add: main_unfold sort_values_def filter_sort simulate_for_room_count grid_7_length
      str_rooms)

text \<open>
  C7: the table of a 7-day run with rooms 1, 2, 3 has exactly 6048 rows: the grid has 672
  timestamps and each of the 9 sensor identifiers labels exactly 672 rows.
\<close>

theorem row_count:
  "length (main G now output_csv start) = 6048
   \<and> map (\<lambda>sid. length (filter (\<lambda>r. sensor_id r = sid) (main G now output_csv start)))
        [''temp_1'', ''temp_2'', ''temp_3'', ''lux_1'', ''lux_2'', ''lux_3'',
         ''occ_1'', ''occ_2'', ''occ_3'']
      = [672, 672, 672, 672, 672, 672, 672, 672, 672]
   \<and> length (generate_time_index s 7) = 672"
  by (simp add: main_length main_count grid_7_length)

lemma sort_values_sorted: "sorted (map (\<lambda>r. (timestamp r, sensor_id r)) (sort_values df))"
  by (simp add: sort_values_def)

lemma sort_values_order:
  assumes "i < j" "j < length (sort_values df)"
  shows "(timestamp (sort_values df ! i), sensor_id (sort_values df ! i))
           \<le> (timestamp (sort_values df ! j), sensor_id (sort_values df ! j))"
proof -
  let ?k = "map (\<lambda>r. (timestamp r, sensor_id r)) (sort_values df)"
  have "?k ! i \<le> ?k ! j"
    using sort_values_sorted [of df] assms by (intro sorted_nth_mono) simp_all
  with assms show ?thesis by simp
qed

text \<open>
  C8: in the output table, rows appear in non-decreasing timestamp order, rows of one
  timestamp in the lexicographic order of their sensor identifiers; so of two rows with the
  same timestamp, the one with the smaller sensor identifier comes first.
\<close>

theorem output_order:
  "(\<forall>i j. i < j \<and> j < length (main G now output_csv start) \<longrightarrow>
       timestamp (main G now output_csv start ! i) < timestamp (main G now output_csv start ! j)
       \<or> (timestamp (main G now output_csv start ! i) = timestamp (main G now output_csv start ! j)
          \<and> sensor_id (main G now output_csv start ! i)
               \<le> sensor_id (main G now output_csv start ! j)))
   \<and> (\<forall>i j. i < length (main G now output_csv start) \<and> j < length (main G now output_csv start)
         \<and> timestamp (main G now output_csv start ! i) = timestamp (main G now output_csv start ! j)
         \<and> sensor_id (main G now output_csv start ! i) < sensor_id (main G now output_csv start ! j)
       \<longrightarrow> i < j)"
proof -
  let ?T = "main G now output_csv start"
  obtain df where T: "?T = sort_values df" using main_unfold by blast
  have ord: "timestamp (?T ! i) < timestamp (?T ! j)
      \<or> (timestamp (?T ! i) = timestamp (?T ! j) \<and> sensor_id (?T ! i) \<le> sensor_id (?T ! j))"
    if "i < j" "j < length ?T" for i j
    using sort_values_order [of i j df] that unfolding T
    by (auto simp: less_eq_prod_def)
  have first: "i < j"
    if "i < length ?T" "j < length ?T" "timestamp (?T ! i) = timestamp (?T ! j)"
      "sensor_id (?T ! i) < sensor_id (?T ! j)" for i j
  proof (rule ccontr)
    assume "\<not> i < j"
    then have "j < i \<or> j = i" by auto
    then show False
    proof
      assume "j < i"
      from ord [OF this that(1)] that(3,4) show False by auto
    next
      assume "j = i"
      with that(4) show False by simp
    qed
  qed
  from ord first show ?thesis by blast
qed


lemma data_frame_timestamp:
  "length vals = length ti \<Longrightarrow> map timestamp (data_frame ti sid vals) = ti"
proof -
  assume l: "length vals = length ti"
  have "map timestamp (data_frame ti sid vals) = map fst (zip ti vals)"
    by (simp add: data_frame_def split_beta)
  with l show ?thesis by simp
qed

lemma simulate_for_room_passes:
  "simulate_for_room G room_id ti seed_base =
     data_frame ti (''temp_'' @ str room_id)
       (map (\<lambda>v. np_round v 2) (fst (temp_loop G ti (default_rng G (seed_base + room_id)))))
     @ data_frame ti (''lux_'' @ str room_id)
       (map (\<lambda>v. np_round v 1)
          (fst (lux_loop G ti (snd (temp_loop G ti (default_rng G (seed_base + room_id)))))))
     @ data_frame ti (''occ_'' @ str room_id)
       (map real_of_int
          (fst (occ_loop G ti
             (snd (lux_loop G ti (snd (temp_loop G ti (default_rng G (seed_base + room_id)))))))))"
  by (simp add: simulate_for_room_def Let_def split_beta)

lemma simulate_for_room_first:
  "\<exists>v w. \<lparr>timestamp = t, sensor_id = ''lux_'' @ str room_id, valor = v\<rparr>
            \<in> set (simulate_for_room G room_id (t # rest) seed_base)
        \<and> \<lparr>timestamp = t, sensor_id = ''temp_'' @ str room_id, valor = w\<rparr>
            \<in> set (simulate_for_room G room_id (t # rest) seed_base)"
  by (simp add: simulate_for_room_passes temp_loop_Cons lux_loop_Cons data_frame_def
      del: temp_loop.simps lux_loop.simps) blast

lemma grid_7_Cons: "\<exists>rest. generate_time_index s 7 = s # rest"
proof -
  have u: "[0..<672] = 0 # [Suc 0..<672]" by (rule upt_conv_Cons) simp
  have "generate_time_index s 7 = map (\<lambda>k. s + int k * freq_15T) [0..<672]"
    using generate_time_index_map [of 7 s] by simp
  then have "generate_time_index s 7
      = s # map (\<lambda>k. s + int k * freq_15T) [Suc 0..<672]"
    by (simp only: u list.map) simp
  then show ?thesis by blast
qed

text \<open>
  In a run from the epoch, the first two rows are in order, and the rows \<open>lux_1\<close> and
  \<open>temp_1\<close> of the first timestamp appear in this order.
\<close>

theorem output_order_witness:
  "(0::nat) < 1 \<and> 1 < length (main (scripted []) 0 ''smart_office_data.csv'' (Some 0))
   \<and> (timestamp (main (scripted []) 0 ''smart_office_data.csv'' (Some 0) ! 0)
        < timestamp (main (scripted []) 0 ''smart_office_data.csv'' (Some 0) ! 1)
      \<or> (timestamp (main (scripted []) 0 ''smart_office_data.csv'' (Some 0) ! 0)
           = timestamp (main (scripted []) 0 ''smart_office_data.csv'' (Some 0) ! 1)
         \<and> sensor_id (main (scripted []) 0 ''smart_office_data.csv'' (Some 0) ! 0)
             \<le> sensor_id (main (scripted []) 0 ''smart_office_data.csv'' (Some 0) ! 1)))
   \<and> (\<exists>i j. i < length (main (scripted []) 0 ''smart_office_data.csv'' (Some 0))
         \<and> j < length (main (scripted []) 0 ''smart_office_data.csv'' (Some 0))
         \<and> timestamp (main (scripted []) 0 ''smart_office_data.csv'' (Some 0) ! i) = 0
         \<and> timestamp (main (scripted []) 0 ''smart_office_data.csv'' (Some 0) ! j) = 0
         \<and> sensor_id (main (scripted []) 0 ''smart_office_data.csv'' (Some 0) ! i) = ''lux_1''
         \<and> sensor_id (main (scripted []) 0 ''smart_office_data.csv'' (Some 0) ! j) = ''temp_1''
         \<and> i < j)"
proof -
  let ?T = "main (scripted []) 0 ''smart_office_data.csv'' (Some 0)"
  note o = output_order [of "scripted []" 0 "''smart_office_data.csv''" "Some 0"]
  have len: "length ?T = 6048" by (rule main_length)
  have a: "(0::nat) < 1" by simp
  have b: "1 < length ?T" by (simp add: len)
  note o1 = conjunct1 [OF o, rule_format] and o2 = conjunct2 [OF o, rule_format]
  have c: "timestamp (?T ! 0) < timestamp (?T ! 1)
      \<or> (timestamp (?T ! 0) = timestamp (?T ! 1) \<and> sensor_id (?T ! 0) \<le> sensor_id (?T ! 1))"
    by (rule o1 [OF conjI [OF a b]])
  obtain rest where g: "generate_time_index 0 7 = 0 # rest" using grid_7_Cons by blast
  obtain v w where
    r1: "\<lparr>timestamp = 0, sensor_id = ''lux_'' @ str 1, valor = v\<rparr>
           \<in> set (simulate_for_room (scripted []) 1 (0 # rest) 2025)"
    and r2: "\<lparr>timestamp = 0, sensor_id = ''temp_'' @ str 1, valor = w\<rparr>
           \<in> set (simulate_for_room (scripted []) 1 (0 # rest) 2025)"
    using simulate_for_room_first by blast
  have s: "set ?T = set (simulate_for_room (scripted []) 1 (0 # rest) 2025)
      \<union> set (simulate_for_room (scripted []) 2 (0 # rest) 2025)
      \<union> set (simulate_for_room (scripted []) 3 (0 # rest) 2025)"
    by (simp add: main_unfold sort_values_def g Un_assoc)
  from r1 s have "\<lparr>timestamp = 0, sensor_id = ''lux_1'', valor = v\<rparr> \<in> set ?T"
    by (simp add: str_rooms)
  then obtain i where i: "i < length ?T" "?T ! i = \<lparr>timestamp = 0, sensor_id = ''lux_1'', valor = v\<rparr>"
    by (auto simp: in_set_conv_nth)
  from r2 s have "\<lparr>timestamp = 0, sensor_id = ''temp_1'', valor = w\<rparr> \<in> set ?T"
    by (simp add: str_rooms)
  then obtain j where j: "j < length ?T" "?T ! j = \<lparr>timestamp = 0, sensor_id = ''temp_1'', valor = w\<rparr>"
    by (auto simp: in_set_conv_nth)
  have e: "timestamp (?T ! i) = timestamp (?T ! j)" by (simp add: i j)
  have l: "sensor_id (?T ! i) < sensor_id (?T ! j)" by (simp add: i j)
  have ij: "i < j"
    by (rule o2 [OF conjI [OF i(1) conjI [OF j(1) conjI [OF e l]]]])
  with i j have "\<exists>i j. i < length ?T \<and> j < length ?T
         \<and> timestamp (?T ! i) = 0 \<and> timestamp (?T ! j) = 0
         \<and> sensor_id (?T ! i) = ''lux_1'' \<and> sensor_id (?T ! j) = ''temp_1'' \<and> i < j"
    by (intro exI [of _ i] exI [of _ j]) simp
  with a b c show ?thesis by (intro conjI)
qed

subsection \<open>The order of the draws\<close>

text \<open>
  The trace and the final state of each loop, sample by sample.
\<close>

lemma state_after_0: "state_after step ti g 0 = g"
  by (simp add: state_after_def)

lemma state_after_Cons:
  "state_after step (t # rest) g (Suc k) = state_after step rest (snd (step t g)) k"
  by (simp add: state_after_def)

lemma state_after_Nil: "state_after step [] g i = g"
  by (simp add: state_after_def)

lemma temp_loop_nth:
  "i < length ti \<Longrightarrow>
     fst (temp_loop G ti g) ! i
       = fst (temp_sample G (ti ! i) (state_after (temp_sample G) ti g i))"
proof (induction ti arbitrary: g i)
  case Nil
  then show ?case by simp
next
  case (Cons t rest)
  show ?case
  proof (cases i)
    case 0
    then show ?thesis by (simp only: temp_loop_Cons fst_conv nth_Cons_0 state_after_0)
  next
    case (Suc k)
    with Cons.prems have "k < length rest" by simp
    from Cons.IH [OF this, of "snd (temp_sample G t g)"] Suc show ?thesis
      by (simp only: temp_loop_Cons fst_conv nth_Cons_Suc state_after_Cons)
  qed
qed

lemma lux_loop_nth:
  "i < length ti \<Longrightarrow>
     fst (lux_loop G ti g) ! i
       = fst (lux_sample G (ti ! i) (state_after (lux_sample G) ti g i))"
proof (induction ti arbitrary: g i)
  case Nil
  then show ?case by simp
next
  case (Cons t rest)
  show ?case
  proof (cases i)
    case 0
    then show ?thesis by (simp only: lux_loop_Cons fst_conv nth_Cons_0 state_after_0)
  next
    case (Suc k)
    with Cons.prems have "k < length rest" by simp
    from Cons.IH [OF this, of "snd (lux_sample G t g)"] Suc show ?thesis
      by (simp only: lux_loop_Cons fst_conv nth_Cons_Suc state_after_Cons)
  qed
qed

lemma occ_loop_nth:
  "i < length ti \<Longrightarrow>
     fst (occ_loop G ti g) ! i
       = fst (occ_sample G (ti ! i) (state_after (occ_sample G) ti g i))"
proof (induction ti arbitrary: g i)
  case Nil
  then show ?case by simp
next
  case (Cons t rest)
  show ?case
  proof (cases i)
    case 0
    then show ?thesis by (simp only: occ_loop_Cons fst_conv nth_Cons_0 state_after_0)
  next
    case (Suc k)
    with Cons.prems have "k < length rest" by simp
    from Cons.IH [OF this, of "snd (occ_sample G t g)"] Suc show ?thesis
      by (simp only: occ_loop_Cons fst_conv nth_Cons_Suc state_after_Cons)
  qed
qed

lemma temp_loop_final: "snd (temp_loop G ti g) = state_after (temp_sample G) ti g (length ti)"
  by (induction ti arbitrary: g)
     (simp_all only: temp_loop.simps(1) temp_loop_Cons snd_conv list.size state_after_Nil
        state_after_Cons add_Suc_right add_0_right)

lemma lux_loop_final: "snd (lux_loop G ti g) = state_after (lux_sample G) ti g (length ti)"
  by (induction ti arbitrary: g)
     (simp_all only: lux_loop.simps(1) lux_loop_Cons snd_conv list.size state_after_Nil
        state_after_Cons add_Suc_right add_0_right)

lemma occ_loop_final: "snd (occ_loop G ti g) = state_after (occ_sample G) ti g (length ti)"
  by (induction ti arbitrary: g)
     (simp_all only: occ_loop.simps(1) occ_loop_Cons snd_conv list.size state_after_Nil
        state_after_Cons add_Suc_right add_0_right)

lemma data_frame_nth:
  "i < length ti \<Longrightarrow> length vals = length ti \<Longrightarrow>
     data_frame ti sid vals ! i = \<lparr>timestamp = ti ! i, sensor_id = sid, valor = vals ! i\<rparr>"
  by (simp add: data_frame_def)

text \<open>The rows of a room, position by position, in terms of the samples alone.\<close>

lemma simulate_for_room_nth:
  assumes "i < length ti"
  shows "simulate_for_room G room_id ti seed_base ! i =
      \<lparr>timestamp = ti ! i, sensor_id = ''temp_'' @ str room_id,
        valor = np_round (fst (temp_sample G (ti ! i)
          (state_after (temp_sample G) ti (default_rng G (seed_base + room_id)) i))) 2\<rparr>"
    and "simulate_for_room G room_id ti seed_base ! (length ti + i) =
      \<lparr>timestamp = ti ! i, sensor_id = ''lux_'' @ str room_id,
        valor = np_round (fst (lux_sample G (ti ! i)
          (state_after (lux_sample G) ti
             (state_after (temp_sample G) ti (default_rng G (seed_base + room_id)) (length ti))
             i))) 1\<rparr>"
    and "simulate_for_room G room_id ti seed_base ! (2 * length ti + i) =
      \<lparr>timestamp = ti ! i, sensor_id = ''occ_'' @ str room_id,
        valor = real_of_int (fst (occ_sample G (ti ! i)
          (state_after (occ_sample G) ti
             (state_after (lux_sample G) ti
                (state_after (temp_sample G) ti (default_rng G (seed_base + room_id))
                   (length ti))
                (length ti))
             i)))\<rparr>"
proof -
  let ?g0 = "default_rng G (seed_base + room_id)"
  let ?n = "length ti"
  let ?A = "data_frame ti (''temp_'' @ str room_id)
       (map (\<lambda>v. np_round v 2) (fst (temp_loop G ti ?g0)))"
  let ?B = "data_frame ti (''lux_'' @ str room_id)
       (map (\<lambda>v. np_round v 1) (fst (lux_loop G ti (snd (temp_loop G ti ?g0)))))"
  let ?C = "data_frame ti (''occ_'' @ str room_id)
       (map real_of_int
          (fst (occ_loop G ti (snd (lux_loop G ti (snd (temp_loop G ti ?g0)))))))"
  have s: "simulate_for_room G room_id ti seed_base = ?A @ ?B @ ?C"
    by (rule simulate_for_room_passes)
  have la: "length ?A = ?n" and lb: "length ?B = ?n" and lc: "length ?C = ?n"
    by (simp_all add: data_frame_length temp_loop_length lux_loop_length occ_loop_length)
  have "(?A @ ?B @ ?C) ! i = ?A ! i" using assms la by (simp add: nth_append)
  also have "\<dots> = \<lparr>timestamp = ti ! i, sensor_id = ''temp_'' @ str room_id,
        valor = np_round (fst (temp_loop G ti ?g0) ! i) 2\<rparr>"
    using assms by (simp add: data_frame_nth temp_loop_length)
  finally show "simulate_for_room G room_id ti seed_base ! i =
      \<lparr>timestamp = ti ! i, sensor_id = ''temp_'' @ str room_id,
        valor = np_round (fst (temp_sample G (ti ! i)
          (state_after (temp_sample G) ti ?g0 i))) 2\<rparr>"
    using assms by (simp only: s temp_loop_nth)
  have "(?A @ ?B @ ?C) ! (?n + i) = ?B ! i" using assms la lb by (simp add: nth_append)
  also have "\<dots> = \<lparr>timestamp = ti ! i, sensor_id = ''lux_'' @ str room_id,
        valor = np_round (fst (lux_loop G ti (snd (temp_loop G ti ?g0))) ! i) 1\<rparr>"
    using assms by (simp add: data_frame_nth lux_loop_length)
  finally show "simulate_for_room G room_id ti seed_base ! (?n + i) =
      \<lparr>timestamp = ti ! i, sensor_id = ''lux_'' @ str room_id,
        valor = np_round (fst (lux_sample G (ti ! i)
          (state_after (lux_sample G) ti (state_after (temp_sample G) ti ?g0 ?n) i))) 1\<rparr>"
    using assms by (simp only: s lux_loop_nth temp_loop_final)
  have "(?A @ ?B @ ?C) ! (2 * ?n + i) = ?C ! i" using assms la lb by (simp add: nth_append)
  also have "\<dots> = \<lparr>timestamp = ti ! i, sensor_id = ''occ_'' @ str room_id,
        valor = real_of_int
          (fst (occ_loop G ti (snd (lux_loop G ti (snd (temp_loop G ti ?g0))))) ! i)\<rparr>"
    using assms by (simp add: data_frame_nth occ_loop_length)
  finally show "simulate_for_room G room_id ti seed_base ! (2 * ?n + i) =
      \<lparr>timestamp = ti ! i, sensor_id = ''occ_'' @ str room_id,
        valor = real_of_int (fst (occ_sample G (ti ! i)
          (state_after (occ_sample G) ti
             (state_after (lux_sample G) ti (state_after (temp_sample G) ti ?g0 ?n) ?n)
             i)))\<rparr>"
    using assms by (simp only: s occ_loop_nth lux_loop_final temp_loop_final)
qed

text \<open>
  C6: an occupancy sample is 0 or 1, and it is 1 exactly when one uniform draw lies below
  the resolved probability of the specification's schedule; on a weekend hour in [10, 14) a
  first draw below 0.06 decides the spike, for that sample only. The occupancy pass emits
  exactly these samples, one per timestamp, each drawn from the generator state its
  predecessors left, and the room's table carries them as its occupancy rows, after the
  temperature and illuminance passes have consumed their draws.
\<close>

theorem occupancy_draw:
  "occ_sample G ts g =
      (if weekday ts \<in> {5, 6} \<and> hour ts \<in> {10..<14}
       then (let (s, g1) = rng_random G g; (u, g2) = rng_random G g1
             in (if u < spec_occupancy_probability ts (s < 0.06) then 1 else 0, g2))
       else (let (u, g1) = rng_random G g
             in (if u < spec_occupancy_probability ts False then 1 else 0, g1)))
   \<and> fst (occ_sample G ts g) \<in> {0, 1}
   \<and> set (fst (occ_loop G ti g)) \<subseteq> {0, 1}
   \<and> length (fst (occ_loop G ti g)) = length ti
   \<and> (\<forall>i<length ti. fst (occ_loop G ti g) ! i
          = fst (occ_sample G (ti ! i) (state_after (occ_sample G) ti g i)))
   \<and> length (simulate_for_room G room_id ti seed_base) = 3 * length ti
   \<and> (\<forall>i<length ti. simulate_for_room G room_id ti seed_base ! (2 * length ti + i) =
        \<lparr>timestamp = ti ! i, sensor_id = ''occ_'' @ str room_id,
          valor = real_of_int (fst (occ_sample G (ti ! i)
            (state_after (occ_sample G) ti
               (state_after (lux_sample G) ti
                  (state_after (temp_sample G) ti (default_rng G (seed_base + room_id))
                     (length ti))
                  (length ti))
               i)))\<rparr>)"
proof -
  have one: "fst (occ_sample G ts g) \<in> {0, 1}" for ts g
    by (simp add: occ_sample_def Let_def split: prod.splits)
  have all: "set (fst (occ_loop G ti g)) \<subseteq> {0, 1}"
  proof (induction ti arbitrary: g)
    case Nil
    show ?case by simp
  next
    case (Cons t rest)
    show ?case using one [of t g] Cons.IH [of "snd (occ_sample G t g)"]
      by (simp only: occ_loop_Cons fst_conv set_simps insert_subset)
  qed
  have wd: "weekday ts \<in> {5, 6} \<longleftrightarrow> \<not> weekday ts < 5"
    using weekday_range [of ts] by auto
  have wd2: "weekday ts \<in> {0, 1, 2, 3, 4} \<longleftrightarrow> weekday ts < 5"
    using weekday_range [of ts] by auto
  have eq: "occ_sample G ts g =
      (if weekday ts \<in> {5, 6} \<and> hour ts \<in> {10..<14}
       then (let (s, g1) = rng_random G g; (u, g2) = rng_random G g1
             in (if u < spec_occupancy_probability ts (s < 0.06) then 1 else 0, g2))
       else (let (u, g1) = rng_random G g
             in (if u < spec_occupancy_probability ts False then 1 else 0, g1)))"
    unfolding wd spec_occupancy_probability_def wd2
    by (auto simp: occ_sample_def occ_base_p_def Let_def split: prod.splits)
  have len: "length (fst (occ_loop G ti g)) = length ti" by (rule occ_loop_length)
  have nth: "\<forall>i<length ti. fst (occ_loop G ti g) ! i
          = fst (occ_sample G (ti ! i) (state_after (occ_sample G) ti g i))"
    by (simp add: occ_loop_nth)
  have rl: "length (simulate_for_room G room_id ti seed_base) = 3 * length ti"
    by (rule simulate_for_room_length)
  have rows: "\<forall>i<length ti. simulate_for_room G room_id ti seed_base ! (2 * length ti + i) =
        \<lparr>timestamp = ti ! i, sensor_id = ''occ_'' @ str room_id,
          valor = real_of_int (fst (occ_sample G (ti ! i)
            (state_after (occ_sample G) ti
               (state_after (lux_sample G) ti
                  (state_after (temp_sample G) ti (default_rng G (seed_base + room_id))
                     (length ti))
                  (length ti))
               i)))\<rparr>"
    by (intro allI impI) (rule simulate_for_room_nth(3))
  from eq one all len nth rl rows show ?thesis by (intro conjI)
qed

lemmas sample_defs = scripted_def temp_sample_def lux_sample_def
  occ_sample_def is_night_def is_work_hour_def hour_def minute_def weekday_def
  ns_per_hour_def ns_per_minute_def ns_per_day_def daily_def rad_def occ_base_p_def
  np_round_def rint_def str_def str_nat.simps Let_def state_after_def

text \<open>
  Saturday 1970-01-03 12:00, room 1. The temperature and illuminance passes take one draw
  each; then a spike draw of 0.01 raises the probability to 0.7 and the draw 0.5 gives 1,
  while a spike draw of 0.5 leaves 0.03 and the draw 0.5 gives 0.
\<close>

theorem occupancy_draw_witness:
  "(0::nat) < length [216000000000000::int]
   \<and> weekday 216000000000000 = 5 \<and> hour 216000000000000 = 12
   \<and> simulate_for_room (scripted [0, 0, 0.01, 0.5]) 1 [216000000000000] 42 ! 2 =
        \<lparr>timestamp = 216000000000000, sensor_id = ''occ_1'', valor = 1\<rparr>
   \<and> simulate_for_room (scripted [0, 0, 0.5, 0.5]) 1 [216000000000000] 42 ! 2 =
        \<lparr>timestamp = 216000000000000, sensor_id = ''occ_1'', valor = 0\<rparr>"
proof -
  have h: "(0::nat) < length [216000000000000::int]" by simp
  have c: "weekday 216000000000000 = 5" "hour 216000000000000 = 12"
    by (simp_all add: weekday_def hour_def ns_per_day_def ns_per_hour_def ns_per_minute_def)
  note o1 = occupancy_draw [of "scripted [0, 0, 0.01, 0.5]" 0 "(0, [])" "[216000000000000]" 1 42]
  note o2 = occupancy_draw [of "scripted [0, 0, 0.5, 0.5]" 0 "(0, [])" "[216000000000000]" 1 42]
  note r1 = o1 [THEN conjunct2, THEN conjunct2, THEN conjunct2, THEN conjunct2, THEN conjunct2,
      THEN conjunct2, rule_format, OF h]
  note r2 = o2 [THEN conjunct2, THEN conjunct2, THEN conjunct2, THEN conjunct2, THEN conjunct2,
      THEN conjunct2, rule_format, OF h]
  from r1 have a: "simulate_for_room (scripted [0, 0, 0.01, 0.5]) 1 [216000000000000] 42 ! 2 =
        \<lparr>timestamp = 216000000000000, sensor_id = ''occ_1'', valor = 1\<rparr>"
    by (simp add: sample_defs)
  from r2 have b: "simulate_for_room (scripted [0, 0, 0.5, 0.5]) 1 [216000000000000] 42 ! 2 =
        \<lparr>timestamp = 216000000000000, sensor_id = ''occ_1'', valor = 0\<rparr>"
    by (simp add: sample_defs)
  from h c a b show ?thesis by (intro conjI)
qed







text \<open>
  Generators that reproduce each other's draws give the same samples, traces and tables.
\<close>

lemma same_draws_seed:
  "same_draws R G1 G2 \<Longrightarrow> R (default_rng G1 seed) (default_rng G2 seed)"
  by (simp add: same_draws_def)

lemma same_draws_normal:
  "same_draws R G1 G2 \<Longrightarrow> R a b \<Longrightarrow>
     fst (rng_normal G1 a loc scale) = fst (rng_normal G2 b loc scale)
     \<and> R (snd (rng_normal G1 a loc scale)) (snd (rng_normal G2 b loc scale))"
  by (simp add: same_draws_def)

lemma same_draws_random:
  "same_draws R G1 G2 \<Longrightarrow> R a b \<Longrightarrow>
     fst (rng_random G1 a) = fst (rng_random G2 b)
     \<and> R (snd (rng_random G1 a)) (snd (rng_random G2 b))"
  by (simp add: same_draws_def)

lemma temp_sample_same:
  assumes sd: "same_draws R G1 G2" and ab: "R a b"
  shows "fst (temp_sample G1 ts a) = fst (temp_sample G2 ts b)
       \<and> R (snd (temp_sample G1 ts a)) (snd (temp_sample G2 ts b))"
proof -
  note N = same_draws_normal [OF sd]
  note n1 = N [OF ab, of 0 "0.2"]
  note n2 = N [OF n1 [THEN conjunct2], of 0 "0.2"]
  note n3 = N [OF ab, of 0 "0.3"]
  note n4 = N [OF n1 [THEN conjunct2], of 0 "0.3"]
  note n5 = N [OF n2 [THEN conjunct2], of 0 "0.3"]
  show ?thesis
    using n1 n2 n3 n4 n5 by (simp add: temp_sample_def Let_def split_beta)
qed

lemma lux_sample_same:
  assumes sd: "same_draws R G1 G2" and ab: "R a b"
  shows "fst (lux_sample G1 ts a) = fst (lux_sample G2 ts b)
       \<and> R (snd (lux_sample G1 ts a)) (snd (lux_sample G2 ts b))"
proof -
  note N = same_draws_normal [OF sd]
  note n1 = N [OF ab, of 0 60]
  note n2 = N [OF ab, of 0 30]
  show ?thesis
    using n1 n2 ab by (simp add: lux_sample_def Let_def split_beta)
qed

lemma occ_sample_same:
  assumes sd: "same_draws R G1 G2" and ab: "R a b"
  shows "fst (occ_sample G1 ts a) = fst (occ_sample G2 ts b)
       \<and> R (snd (occ_sample G1 ts a)) (snd (occ_sample G2 ts b))"
proof -
  note N = same_draws_random [OF sd]
  note n1 = N [OF ab]
  note n2 = N [OF n1 [THEN conjunct2]]
  show ?thesis
    using n1 n2 by (simp add: occ_sample_def Let_def split_beta)
qed

lemma temp_loop_same:
  assumes sd: "same_draws R G1 G2"
  shows "R a b \<Longrightarrow> fst (temp_loop G1 ti a) = fst (temp_loop G2 ti b)
       \<and> R (snd (temp_loop G1 ti a)) (snd (temp_loop G2 ti b))"
proof (induction ti arbitrary: a b)
  case Nil
  then show ?case by simp
next
  case (Cons t rest)
  note s = temp_sample_same [OF sd Cons.prems, of t]
  from Cons.IH [OF s [THEN conjunct2]] s show ?case
    by (simp only: temp_loop_Cons fst_conv snd_conv)
qed

lemma lux_loop_same:
  assumes sd: "same_draws R G1 G2"
  shows "R a b \<Longrightarrow> fst (lux_loop G1 ti a) = fst (lux_loop G2 ti b)
       \<and> R (snd (lux_loop G1 ti a)) (snd (lux_loop G2 ti b))"
proof (induction ti arbitrary: a b)
  case Nil
  then show ?case by simp
next
  case (Cons t rest)
  note s = lux_sample_same [OF sd Cons.prems, of t]
  from Cons.IH [OF s [THEN conjunct2]] s show ?case
    by (simp only: lux_loop_Cons fst_conv snd_conv)
qed

lemma occ_loop_same:
  assumes sd: "same_draws R G1 G2"
  shows "R a b \<Longrightarrow> fst (occ_loop G1 ti a) = fst (occ_loop G2 ti b)
       \<and> R (snd (occ_loop G1 ti a)) (snd (occ_loop G2 ti b))"
proof (induction ti arbitrary: a b)
  case Nil
  then show ?case by simp
next
  case (Cons t rest)
  note s = occ_sample_same [OF sd Cons.prems, of t]
  from Cons.IH [OF s [THEN conjunct2]] s show ?case
    by (simp only: occ_loop_Cons fst_conv snd_conv)
qed

lemma simulate_for_room_same:
  assumes sd: "same_draws R G1 G2"
  shows "simulate_for_room G1 room_id ti seed_base = simulate_for_room G2 room_id ti seed_base"
proof -
  note t = temp_loop_same [OF sd same_draws_seed [OF sd, of "seed_base + room_id"], of ti]
  note l = lux_loop_same [OF sd t [THEN conjunct2], of ti]
  note c = occ_loop_same [OF sd l [THEN conjunct2], of ti]
  from t l c show ?thesis
    by (simp only: simulate_for_room_passes)
qed

lemma build_table_same:
  "same_draws R G1 G2 \<Longrightarrow> build_table G1 seed_base days start = build_table G2 seed_base days start"
  by (simp add: build_table_def simulate_for_room_same [of R G1 G2])

subsection \<open>Two runs\<close>

lemma scripted_indexed_same_draws:
  "same_draws (\<lambda>a n. snd a = drop n script) (scripted script) (indexed script)"
proof -
  have c: "drop n script = script ! n # drop (Suc n) script" if "n < length script" for n
    using that by (simp add: Cons_nth_drop_Suc)
  have e: "drop n script = []" if "\<not> n < length script" for n
    using that by simp
  show ?thesis
    unfolding same_draws_def scripted_def indexed_def
    by (auto simp: c e)
qed

text \<open>
  The sort keys of the table are pairwise distinct, so the sorted arrangement of the rows is
  unique: no choice of sorting algorithm can change the output.
\<close>

lemma data_frame_keys:
  "length vals = length ti \<Longrightarrow>
     map (\<lambda>r. (timestamp r, sensor_id r)) (data_frame ti sid vals) = map (\<lambda>ts. (ts, sid)) ti"
proof -
  assume l: "length vals = length ti"
  have "map (\<lambda>r. (timestamp r, sensor_id r)) (data_frame ti sid vals)
      = map (\<lambda>ts. (ts, sid)) (map fst (zip ti vals))"
    by (simp add: data_frame_def split_beta)
  with l show ?thesis by simp
qed

lemma simulate_for_room_keys:
  "map (\<lambda>r. (timestamp r, sensor_id r)) (simulate_for_room G room_id ti seed_base) =
     map (\<lambda>ts. (ts, ''temp_'' @ str room_id)) ti
     @ map (\<lambda>ts. (ts, ''lux_'' @ str room_id)) ti
     @ map (\<lambda>ts. (ts, ''occ_'' @ str room_id)) ti"
  by (simp add: simulate_for_room_passes data_frame_keys
      temp_loop_length lux_loop_length occ_loop_length)

lemma generate_time_index_distinct: "distinct (generate_time_index start days)"
proof -
  have pos: "0 < freq_15T" by (simp add: freq_15T_def ns_per_minute_def)
  consider "0 < days" | "days = 0" | "days < 0" by linarith
  then show ?thesis
  proof cases
    case 1
    have "inj_on (\<lambda>k. start + int k * freq_15T) (set [0..<nat (days * 96)])"
      using pos by (auto simp: inj_on_def)
    then show ?thesis
      by (simp add: generate_time_index_map [OF 1] distinct_map)
  next
    case 2
    then show ?thesis by (simp add: generate_time_index_zero)
  next
    case 3
    then have "start + timedelta_days days < start"
      by (simp add: timedelta_days_def ns_per_day_def ns_per_hour_def ns_per_minute_def)
    then have "generate_range start (start + timedelta_days days) freq_15T = []"
      by (rule generate_range_past)
    then show ?thesis by (simp add: generate_time_index_def date_range_left_def)
  qed
qed

lemma table_keys_distinct:
  assumes "distinct ti"
  shows "distinct (map (\<lambda>r. (timestamp r, sensor_id r))
           (simulate_for_room G 1 ti seed_base @ simulate_for_room G 2 ti seed_base
            @ simulate_for_room G 3 ti seed_base))"
proof -
  have i: "inj_on (\<lambda>ts. (ts, sid)) (set ti)" for sid :: string
    by (simp add: inj_on_def)
  show ?thesis
    using assms
    by (auto simp: simulate_for_room_keys str_rooms distinct_map i)
qed

lemma sorted_arrangement_unique:
  fixes key :: "'a \<Rightarrow> 'k::linorder"
  assumes m: "mset T = mset df" and s: "sorted (map key T)" and d: "distinct (map key df)"
  shows "T = sort_key key df"
proof -
  let ?S = "sort_key key df"
  have mk: "mset (map key T) = mset (map key df)" using m by (metis mset_map)
  have dT: "distinct (map key T)" using mset_eq_imp_distinct_iff [OF mk] d by simp
  have mS: "mset (map key ?S) = mset (map key df)" by (metis mset_map mset_sort)
  have dS: "distinct (map key ?S)" using mset_eq_imp_distinct_iff [OF mS] d by simp
  have st: "set (map key T) = set (map key ?S)"
    using mk mS by (metis mset_eq_setD)
  have sS: "sorted (map key ?S)" by simp
  have eq: "map key T = map key ?S"
    by (rule sorted_distinct_set_unique [OF s dT sS dS st])
  have "set T = set df" using m by (rule mset_eq_setD)
  moreover have "inj_on key (set df)" using d by (simp add: distinct_map)
  ultimately have "inj_on key (set T \<union> set ?S)" by simp
  with eq show ?thesis by (rule map_inj_on)
qed

text \<open>
  C5: two runs with the same base seed, the same start instant and the same day count, each
  with a generator of its own that reproduces the other's draws from equal seeds, produce the
  same table, row for row and value for value. The clock reading and the output path of a run
  do not enter the table, and neither does the sorting algorithm: every arrangement of the
  frames that is sorted by (timestamp, sensor identifier) is that table.
\<close>

theorem determinism:
  assumes "same_draws R G1 G2" and "seed1 = seed2" and "start1 = start2" and "days1 = days2"
  shows "build_table G1 seed1 days1 start1 = build_table G2 seed2 days2 start2
       \<and> main G1 now1 out1 (Some start1) = main G2 now2 out2 (Some start2)
       \<and> (\<forall>T. mset T = mset (concat (map
                  (\<lambda>room. simulate_for_room G2 room (generate_time_index start2 days2) seed2)
                  [1, 2, 3]))
              \<and> sorted (map (\<lambda>r. (timestamp r, sensor_id r)) T)
            \<longrightarrow> T = build_table G1 seed1 days1 start1)"
proof -
  have b: "build_table G1 seed1 days1 start1 = build_table G2 seed2 days2 start2"
    using assms build_table_same [of R G1 G2 seed1 days1 start1] by simp
  have mn: "main G1 now1 out1 (Some start1) = main G2 now2 out2 (Some start2)"
    using assms build_table_same [of R G1 G2 2025 7 start1] by (simp add: main_def)
  have u: "T = build_table G1 seed1 days1 start1"
    if m: "mset T = mset (concat (map
                  (\<lambda>room. simulate_for_room G2 room (generate_time_index start2 days2) seed2)
                  [1, 2, 3]))"
      and s: "sorted (map (\<lambda>r. (timestamp r, sensor_id r)) T)" for T
  proof -
    let ?ti = "generate_time_index start2 days2"
    let ?df = "simulate_for_room G2 1 ?ti seed2 @ simulate_for_room G2 2 ?ti seed2
            @ simulate_for_room G2 3 ?ti seed2"
    have m': "mset T = mset ?df" using m by simp
    have d: "distinct (map (\<lambda>r. (timestamp r, sensor_id r)) ?df)"
      by (rule table_keys_distinct) (rule generate_time_index_distinct)
    have "T = sort_key (\<lambda>r. (timestamp r, sensor_id r)) ?df"
      by (rule sorted_arrangement_unique [OF m' s d])
    also have "\<dots> = build_table G2 seed2 days2 start2"
      by (simp add: build_table_def sort_values_def Let_def)
    finally show ?thesis using b by simp
  qed
  from b mn u show ?thesis by blast
qed

text \<open>
  Two runs from the epoch at different clock readings and output paths, one with the scripted
  generator and one with the indexed generator over the same script.
\<close>

theorem determinism_witness:
  "same_draws (\<lambda>a n. snd a = drop n [0, - 2, 1 / 2])
      (scripted [0, - 2, 1 / 2]) (indexed [0, - 2, 1 / 2])
   \<and> (2025::int) = 2025 \<and> (0::int) = 0 \<and> (7::int) = 7
   \<and> build_table (scripted [0, - 2, 1 / 2]) 2025 7 0
        = build_table (indexed [0, - 2, 1 / 2]) 2025 7 0
   \<and> main (scripted [0, - 2, 1 / 2]) 1 ''a.csv'' (Some 0)
        = main (indexed [0, - 2, 1 / 2]) 2 ''b.csv'' (Some 0)
   \<and> mset (build_table (indexed [0, - 2, 1 / 2]) 2025 7 0)
        = mset (concat (map
            (\<lambda>room. simulate_for_room (indexed [0, - 2, 1 / 2]) room
               (generate_time_index 0 7) 2025) [1, 2, 3]))
   \<and> sorted (map (\<lambda>r. (timestamp r, sensor_id r))
        (build_table (indexed [0, - 2, 1 / 2]) 2025 7 0))"
proof -
  let ?s = "[0, - 2, 1 / 2] :: real list"
  have sd: "same_draws (\<lambda>a n. snd a = drop n ?s) (scripted ?s) (indexed ?s)"
    by (rule scripted_indexed_same_draws)
  have a: "(2025::int) = 2025" and b: "(0::int) = 0" and c: "(7::int) = 7" by simp_all
  note d = determinism [OF sd a b c, of 1 "''a.csv''" 2 "''b.csv''"]
  have m: "mset (build_table (indexed ?s) 2025 7 0)
        = mset (concat (map
            (\<lambda>room. simulate_for_room (indexed ?s) room (generate_time_index 0 7) 2025)
            [1, 2, 3]))"
    by (simp add: build_table_def sort_values_def Let_def)
  have s: "sorted (map (\<lambda>r. (timestamp r, sensor_id r)) (build_table (indexed ?s) 2025 7 0))"
    by (simp add: build_table_def sort_values_def Let_def)
  from d have t: "build_table (scripted ?s) 2025 7 0 = build_table (indexed ?s) 2025 7 0"
    by (rule conjunct1)
  from d have mn: "main (scripted ?s) 1 ''a.csv'' (Some 0) = main (indexed ?s) 2 ''b.csv'' (Some 0)"
    by (rule conjunct1 [OF conjunct2])
  from sd a b c t mn m s show ?thesis by (intro conjI)
qed

end
